theory Spec2Isabelle
  imports Main "HOL-Library.Word"
begin

section \<open>The torque dashboard: data model\<close>

text \<open>
  The program is one class, \<open>TorqueDashboard\<close>, whose methods run on the Qt main thread
  (button slots, timer slots, signal slots) and on background threads (one per scan, one per
  connection, one per disconnect). The model is one record holding the object's attributes,
  the two module globals, the persisted table, the threads that were started and the signals
  queued for the main thread. Every method is a function on that record.

  Texts shown to the user carry non-ASCII glyphs and time stamps; a console line and a label
  text are therefore constructors that keep the parameters of the source's f-strings.
\<close>

type_synonym byte = "8 word"

text \<open>The five signals of \<open>BLESignals\<close>.\<close>

datatype signal =
    DataReceived int
  | ConnectionStatus string
  | DeviceFound string string
  | ErrorOccurred string
  | ScanCompleted bool

text \<open>
  \<open>data_received\<close> is declared \<open>pyqtSignal(int)\<close>: its argument is a C \<open>int\<close> of 32 bits.
  A Python integer handed to \<open>emit\<close> reaches the slot as the signed value of its low 32
  bits, so \<open>DataReceived\<close> carries the value after that conversion.
\<close>

definition c_int :: "int \<Rightarrow> int" where
  "c_int v = sint (word_of_int v :: 32 word)"

text \<open>A device as \<open>BleakScanner.discover\<close> reports it: \<open>name\<close> may be \<open>None\<close>.\<close>

record device =
  address :: string
  name :: "string option"

text \<open>The client object built by \<open>BleakClient(SENSOR_ADDRESS)\<close>.\<close>

datatype client = BleakClient "string option"

text \<open>Lines appended to the console by \<open>log_message\<close>.\<close>

datatype log_msg =
    LogConnectionLost
  | LogAutoRetry int int
  | LogWarning string
  | LogStartingScan
  | LogStoppingPreviousScan
  | LogScanning
  | LogFoundCount nat
  | LogFound string string
  | LogNoEsp32Found
  | LogScanNoneFound
  | LogEsp32Found string string
  | LogAttempting string
  | LogConnected
  | LogConnectionFailed
  | LogDisconnecting
  | LogDisconnectError string
  | LogAutoRetryEnabled
  | LogAutoRetryDisabled
  | LogSimulated int
  | LogReceived int
  | LogDatabaseSaveError string
  | LogInitialized
  | LogWillRemainOpen

text \<open>Label contents: the stylesheet colour and the text of \<open>torque_label\<close>, the texts of
  \<open>connection_label\<close> and \<open>status_label\<close>.\<close>

datatype colour = Gold | Red | Green

datatype torque_text = NoEsp32Connected | HighTorque int | Torque int

datatype connection_text = DisconnectedOperational | ConnectedToEsp32 | DisconnectedRemainsActive

datatype status_text = DashboardReady | Esp32FoundAt string | ConnectedReceiving

text \<open>
  What an awaited call hands back to a coroutine: its result, an exception, or the
  cancellation that \<open>asyncio.wait_for\<close> delivers when its timeout expires (a
  \<open>CancelledError\<close>, which \<open>except Exception\<close> does not catch).
\<close>

datatype 'a awaited = Returned 'a | Raised string | Cancelled

text \<open>
  Control points of a connection thread (\<open>run_connection_safe\<close> running
  \<open>connect_ble_device_safe\<close>): started, awaiting \<open>connect()\<close>, at the \<open>while\<close> test,
  awaiting \<open>read_gatt_char\<close>, awaiting \<open>asyncio.sleep(2.5)\<close>, returned.
\<close>

datatype pc = Created | Connecting | LoopHead | Reading | Sleeping | Finished

datatype thread = MainThread | ConnectionThread nat | ScanThread nat | DisconnectThread

text \<open>What a thread does to the outside: a signal emission, a transport call, a sleep.\<close>

datatype action =
    Emit signal
  | TransportConnect
  | TransportRead
  | TransportDisconnect
  | SleepStart

text \<open>
  Where \<open>save_torque_value\<close> raises, if it does: at \<open>sqlite3.connect\<close>, \<open>cursor\<close>,
  \<open>execute\<close>, \<open>commit\<close> or \<open>close\<close>, with the exception's text.
\<close>

datatype db_fault =
    NoFault
  | ConnectRaises string
  | CursorRaises string
  | ExecuteRaises string
  | CommitRaises string
  | CloseRaises string

record state =
  app_running :: bool
  is_connected :: bool
  connection_active :: bool
  ble_client :: "client option"
  retry_count :: int
  max_retries :: int
  auto_retry :: bool
  SENSOR_ADDRESS :: "string option"
  THRESHOLD :: int
  torque_label :: "colour \<times> torque_text"
  connection_label :: connection_text
  status_label :: status_text
  error_label :: "string option"
  btn_scan_enabled :: bool
  btn_connect_enabled :: bool
  btn_disconnect_enabled :: bool
  console :: "log_msg list"
  torque_data :: "int list"
  actions :: "(thread \<times> action) list"
  pending :: "signal list"
  connection_threads :: "pc list"
  scan_threads :: "bool list"
  disconnect_threads :: nat

text \<open>
  \<open>torque_data\<close> is the column \<open>torque_value\<close> of the table in insertion order.
  \<open>actions\<close> is the history of emissions and transport calls, each with the thread that made
  it. \<open>pending\<close> holds the signals emitted off the main thread and not yet delivered: Qt
  queues a signal emitted from another thread than the receiver's and runs the slot from the
  main thread's event loop, in emission order. \<open>connection_threads\<close> lists every connection
  thread ever started with its control point, \<open>scan_threads\<close> every scan thread with whether
  it is still alive, \<open>disconnect_threads\<close> counts the disconnect threads started and not yet
  run.
\<close>

section \<open>Methods that run on the main thread\<close>

definition log_message :: "log_msg \<Rightarrow> state \<Rightarrow> state" where
  "log_message m s = s\<lparr>console := console s @ [m]\<rparr>"

definition on_error_occurred :: "string \<Rightarrow> state \<Rightarrow> state" where
  "on_error_occurred error_message s =
     (log_message (LogWarning error_message) (s\<lparr>error_label := Some error_message\<rparr>))
       \<lparr>is_connected := False, connection_active := False,
        btn_connect_enabled := True, btn_disconnect_enabled := False\<rparr>"

text \<open>
  A signal emitted by the main thread itself runs its slot at once, inside \<open>emit\<close>. The only
  signal the methods below emit from the main thread is \<open>error_occurred\<close>.
\<close>

definition emit_error_occurred :: "string \<Rightarrow> state \<Rightarrow> state" where
  "emit_error_occurred m s =
     on_error_occurred m (s\<lparr>actions := actions s @ [(MainThread, Emit (ErrorOccurred m))]\<rparr>)"

definition update_connection_status :: "string \<Rightarrow> state \<Rightarrow> state" where
  "update_connection_status status s =
     (if status = ''connected'' then s\<lparr>connection_label := ConnectedToEsp32\<rparr>
      else if status = ''disconnected'' then s\<lparr>connection_label := DisconnectedRemainsActive\<rparr>
      else s)"

text \<open>\<open>not SENSOR_ADDRESS\<close> holds for \<open>None\<close> and for the empty string.\<close>

definition safe_connect_device :: "state \<Rightarrow> state" where
  "safe_connect_device s =
     (if SENSOR_ADDRESS s = None \<or> SENSOR_ADDRESS s = Some []
      then emit_error_occurred ''No ESP32 address available - Please scan first'' s
      else (log_message (LogAttempting (the (SENSOR_ADDRESS s))) s)
             \<lparr>btn_connect_enabled := False, connection_active := True,
              connection_threads := connection_threads s @ [Created]\<rparr>)"

text \<open>
  \<open>monitor_connection\<close> is the slot of the 5 second timer. Its argument is what the property
  \<open>self.ble_client.is_connected\<close> reads at that moment; it is read only when
  \<open>self.is_connected and self.ble_client\<close> holds.
\<close>

definition monitor_connection :: "bool \<Rightarrow> state \<Rightarrow> state" where
  "monitor_connection link s =
     (if \<not> app_running s then s
      else
        let s1 =
          (if is_connected s \<and> ble_client s \<noteq> None \<and> \<not> link then
             let s2 = update_connection_status ''disconnected''
                        ((log_message LogConnectionLost s)
                           \<lparr>is_connected := False, connection_active := False\<rparr>)
             in if auto_retry s2 \<and> retry_count s2 < max_retries s2
                then safe_connect_device
                       ((log_message (LogAutoRetry (retry_count s2 + 1) (max_retries s2)) s2)
                          \<lparr>retry_count := retry_count s2 + 1\<rparr>)
                else s2
           else s)
        in if \<not> is_connected s1 then s1\<lparr>connection_label := DisconnectedOperational\<rparr> else s1)"

definition safe_scan_devices :: "state \<Rightarrow> state" where
  "safe_scan_devices s =
     (let s1 = (log_message LogStartingScan s)\<lparr>btn_scan_enabled := False\<rparr>;
          s2 = (if scan_threads s1 \<noteq> [] \<and> last (scan_threads s1)
                then log_message LogStoppingPreviousScan s1 else s1)
      in s2\<lparr>scan_threads := scan_threads s2 @ [True]\<rparr>)"

definition on_scan_completed :: "bool \<Rightarrow> state \<Rightarrow> state" where
  "on_scan_completed success s =
     (let s1 = s\<lparr>btn_scan_enabled := True\<rparr>
      in if \<not> success then log_message LogScanNoneFound s1 else s1)"

definition on_device_found :: "string \<Rightarrow> string \<Rightarrow> state \<Rightarrow> state" where
  "on_device_found addr nm s =
     (log_message (LogEsp32Found nm addr) (s\<lparr>SENSOR_ADDRESS := Some addr\<rparr>))
       \<lparr>status_label := Esp32FoundAt addr, btn_connect_enabled := True, retry_count := 0\<rparr>"

definition on_connection_status :: "string \<Rightarrow> state \<Rightarrow> state" where
  "on_connection_status status s =
     (if status = ''connected'' then
        (update_connection_status ''connected''
           ((log_message LogConnected (s\<lparr>is_connected := True, connection_active := True\<rparr>))
              \<lparr>status_label := ConnectedReceiving\<rparr>))
          \<lparr>btn_connect_enabled := False, btn_disconnect_enabled := True, retry_count := 0\<rparr>
      else if status = ''failed'' then
        (update_connection_status ''disconnected''
           (log_message LogConnectionFailed (s\<lparr>is_connected := False, connection_active := False\<rparr>)))
          \<lparr>btn_connect_enabled := True, btn_disconnect_enabled := False\<rparr>
      else s)"

definition safe_disconnect_device :: "state \<Rightarrow> state" where
  "safe_disconnect_device s =
     (let s1 = (update_connection_status ''disconnected''
                  (log_message LogDisconnecting
                     (s\<lparr>is_connected := False, connection_active := False\<rparr>)))
                 \<lparr>btn_disconnect_enabled := False, btn_connect_enabled := True\<rparr>
      in if ble_client s1 \<noteq> None
         then s1\<lparr>disconnect_threads := disconnect_threads s1 + 1\<rparr> else s1)"

definition toggle_auto_retry :: "state \<Rightarrow> state" where
  "toggle_auto_retry s =
     (let s1 = s\<lparr>auto_retry := \<not> auto_retry s\<rparr>
      in if auto_retry s1 then log_message LogAutoRetryEnabled s1
         else log_message LogAutoRetryDisabled s1)"

text \<open>
  \<open>save_torque_value\<close>: the row is in the table once \<open>commit\<close> has returned; every exception
  is caught and logged.
\<close>

definition save_torque_value :: "db_fault \<Rightarrow> int \<Rightarrow> state \<Rightarrow> state" where
  "save_torque_value fault torque_value s =
     (case fault of
        NoFault \<Rightarrow> s\<lparr>torque_data := torque_data s @ [torque_value]\<rparr>
      | ConnectRaises e \<Rightarrow> log_message (LogDatabaseSaveError e) s
      | CursorRaises e \<Rightarrow> log_message (LogDatabaseSaveError e) s
      | ExecuteRaises e \<Rightarrow> log_message (LogDatabaseSaveError e) s
      | CommitRaises e \<Rightarrow> log_message (LogDatabaseSaveError e) s
      | CloseRaises e \<Rightarrow>
          log_message (LogDatabaseSaveError e) (s\<lparr>torque_data := torque_data s @ [torque_value]\<rparr>))"

definition on_data_received :: "db_fault \<Rightarrow> int \<Rightarrow> state \<Rightarrow> state" where
  "on_data_received fault torque_value s =
     (let s1 = log_message (LogReceived torque_value) (save_torque_value fault torque_value s)
      in if torque_value > THRESHOLD s1
         then s1\<lparr>torque_label := (Red, HighTorque torque_value)\<rparr>
         else s1\<lparr>torque_label := (Green, Torque torque_value)\<rparr>)"

definition update_threshold :: "int \<Rightarrow> state \<Rightarrow> state" where
  "update_threshold slider_value s = s\<lparr>THRESHOLD := slider_value\<rparr>"

text \<open>
  \<open>simulate_torque_data\<close> emits \<open>data_received\<close> from the main thread, so the slot runs
  inside \<open>emit\<close>; the first argument is the index \<open>random.choice\<close> picks.
\<close>

definition simulated_values :: "int list" where
  "simulated_values = [45, 85, 120, 165, 200, 175, 130, 90, 60, 30]"

definition simulate_torque_data :: "nat \<Rightarrow> db_fault \<Rightarrow> state \<Rightarrow> state" where
  "simulate_torque_data k fault s =
     (let v = simulated_values ! (k mod length simulated_values)
      in log_message (LogSimulated v)
           (on_data_received fault (c_int v)
              (s\<lparr>actions := actions s @ [(MainThread, Emit (DataReceived (c_int v)))]\<rparr>)))"

section \<open>The scan thread\<close>

text \<open>Python's \<open>pattern in text\<close> on strings: \<open>pattern\<close> occurs as a contiguous run.\<close>

fun py_in :: "string \<Rightarrow> string \<Rightarrow> bool" where
  "py_in pattern [] = (pattern = [])"
| "py_in pattern (c # cs) = (take (length pattern) (c # cs) = pattern \<or> py_in pattern cs)"

text \<open>A signal emitted off the main thread is recorded and queued for the main thread.\<close>

definition emit_queued :: "thread \<Rightarrow> signal \<Rightarrow> state \<Rightarrow> state" where
  "emit_queued t sig s = s\<lparr>actions := actions s @ [(t, Emit sig)], pending := pending s @ [sig]\<rparr>"

text \<open>\<open>device.name or "Unknown"\<close>.\<close>

definition device_name_of :: "device \<Rightarrow> string" where
  "device_name_of d = (case name d of None \<Rightarrow> ''Unknown'' | Some n \<Rightarrow> if n = [] then ''Unknown'' else n)"

definition matches :: "device \<Rightarrow> bool" where
  "matches d = (device_name_of d \<noteq> [] \<and> py_in ''ESP32_To'' (device_name_of d))"

text \<open>
  The \<open>for device in devices\<close> loop of \<open>scan_ble_devices_safe\<close>, run by scan thread \<open>j\<close>;
  the result's first component is \<open>found_esp32\<close>.
\<close>

fun scan_loop :: "nat \<Rightarrow> device list \<Rightarrow> state \<Rightarrow> bool \<times> state" where
  "scan_loop j [] s = (False, s)"
| "scan_loop j (d # ds) s =
     (let s1 = log_message (LogFound (device_name_of d) (address d)) s
      in if matches d
         then (True, emit_queued (ScanThread j) (DeviceFound (address d) (device_name_of d)) s1)
         else scan_loop j ds s1)"

text \<open>
  \<open>scan_ble_devices_safe\<close> awaits once, on \<open>BleakScanner.discover\<close>. The first component of
  the result tells whether the coroutine was cancelled there by the 15 second deadline.
\<close>

definition scan_ble_devices_safe :: "nat \<Rightarrow> device list awaited \<Rightarrow> state \<Rightarrow> bool \<times> state" where
  "scan_ble_devices_safe j discovered s =
     (let s0 = log_message LogScanning s
      in case discovered of
           Cancelled \<Rightarrow> (True, s0)
         | Raised e \<Rightarrow> (False, emit_queued (ScanThread j) (ErrorOccurred (''BLE scan failed: '' @ e)) s0)
         | Returned devices \<Rightarrow>
             (let s1 = log_message (LogFoundCount (length devices)) s0;
                  (found_esp32, s2) = scan_loop j devices s1
              in (False, if \<not> found_esp32 then log_message LogNoEsp32Found s2 else s2)))"

text \<open>
  What a scan thread meets: the event loop cannot be set up, or the coroutine runs and
  \<open>discover\<close> hands back its result.
\<close>

datatype scan_input = LoopSetupRaises string | Discover "device list awaited"

definition run_scan_safe :: "nat \<Rightarrow> scan_input \<Rightarrow> state \<Rightarrow> state" where
  "run_scan_safe j inp s =
     (let s1 =
        (case inp of
           LoopSetupRaises e \<Rightarrow>
             emit_queued (ScanThread j) (ScanCompleted False)
               (emit_queued (ScanThread j) (ErrorOccurred (''Scan error: '' @ e)) s)
         | Discover discovered \<Rightarrow>
             (case scan_ble_devices_safe j discovered s of
                (True, s') \<Rightarrow>
                  emit_queued (ScanThread j) (ScanCompleted False)
                    (emit_queued (ScanThread j)
                       (ErrorOccurred ''Scan timeout - ESP32 may not be available'') s')
              | (False, s') \<Rightarrow> s'))
      in (emit_queued (ScanThread j) (ScanCompleted True) s1)
           \<lparr>scan_threads := (scan_threads s1)[j := False]\<rparr>)"

section \<open>The connection thread\<close>

text \<open>\<open>int.from_bytes(value, byteorder="little")\<close>.\<close>

fun from_bytes_little :: "byte list \<Rightarrow> int" where
  "from_bytes_little [] = 0"
| "from_bytes_little (b # bs) = uint b + 256 * from_bytes_little bs"

definition set_pc :: "nat \<Rightarrow> pc \<Rightarrow> state \<Rightarrow> state" where
  "set_pc i p s = s\<lparr>connection_threads := (connection_threads s)[i := p]\<rparr>"

text \<open>The handler of \<open>asyncio.TimeoutError\<close> in \<open>run_connection_safe\<close>.\<close>

definition connection_timeout :: "nat \<Rightarrow> state \<Rightarrow> state" where
  "connection_timeout i s =
     set_pc i Finished
       (emit_queued (ConnectionThread i) (ConnectionStatus ''failed'')
          (emit_queued (ConnectionThread i)
             (ErrorOccurred ''Connection timeout - ESP32 may not be responding'') s))"

text \<open>
  The thread starts: \<open>run_connection_safe\<close> sets up an event loop (the argument is the
  exception text if that raises), then the coroutine builds the client and calls \<open>connect()\<close>.
\<close>

definition thread_start :: "nat \<Rightarrow> string option \<Rightarrow> state \<Rightarrow> state" where
  "thread_start i loop_error s =
     (case loop_error of
        Some e \<Rightarrow>
          set_pc i Finished
            (emit_queued (ConnectionThread i) (ConnectionStatus ''failed'')
               (emit_queued (ConnectionThread i) (ErrorOccurred (''Connection error: '' @ e)) s))
      | None \<Rightarrow>
          set_pc i Connecting
            (s\<lparr>ble_client := Some (BleakClient (SENSOR_ADDRESS s)),
               actions := actions s @ [(ConnectionThread i, TransportConnect)]\<rparr>))"

text \<open>
  \<open>connect()\<close> is over. \<open>Returned link\<close>: it returned and \<open>self.ble_client.is_connected\<close>
  then reads \<open>link\<close>.
\<close>

definition connect_done :: "nat \<Rightarrow> bool awaited \<Rightarrow> state \<Rightarrow> state" where
  "connect_done i r s =
     (case r of
        Returned link \<Rightarrow>
          if link
          then set_pc i LoopHead (emit_queued (ConnectionThread i) (ConnectionStatus ''connected'') s)
          else set_pc i Finished (emit_queued (ConnectionThread i) (ConnectionStatus ''failed'') s)
      | Raised e \<Rightarrow>
          set_pc i Finished
            (emit_queued (ConnectionThread i) (ConnectionStatus ''failed'')
               (emit_queued (ConnectionThread i) (ErrorOccurred (''BLE connection failed: '' @ e)) s))
      | Cancelled \<Rightarrow> connection_timeout i s)"

text \<open>
  The \<open>while\<close> test; \<open>link\<close> is what \<open>self.ble_client.is_connected\<close> reads. When the test
  holds the body calls \<open>read_gatt_char\<close>; when it fails the coroutine returns.
\<close>

definition loop_test :: "nat \<Rightarrow> bool \<Rightarrow> state \<Rightarrow> state" where
  "loop_test i link s =
     (if link \<and> is_connected s \<and> connection_active s \<and> app_running s
      then set_pc i Reading (s\<lparr>actions := actions s @ [(ConnectionThread i, TransportRead)]\<rparr>)
      else set_pc i Finished s)"

text \<open>
  \<open>read_gatt_char\<close> is over: decode, emit, start the sleep; or report and leave the loop.
  The decoded value is unbounded; the signal carries it as a C \<open>int\<close>.
\<close>

definition read_done :: "nat \<Rightarrow> byte list awaited \<Rightarrow> state \<Rightarrow> state" where
  "read_done i r s =
     (case r of
        Returned val \<Rightarrow>
          (let torque_value = from_bytes_little val;
               s1 = emit_queued (ConnectionThread i) (DataReceived (c_int torque_value)) s
           in set_pc i Sleeping (s1\<lparr>actions := actions s1 @ [(ConnectionThread i, SleepStart)]\<rparr>))
      | Raised e \<Rightarrow>
          set_pc i Finished
            (emit_queued (ConnectionThread i) (ErrorOccurred (''Data read error: '' @ e)) s)
      | Cancelled \<Rightarrow> connection_timeout i s)"

definition sleep_done :: "nat \<Rightarrow> unit awaited \<Rightarrow> state \<Rightarrow> state" where
  "sleep_done i r s =
     (case r of
        Returned u \<Rightarrow> set_pc i LoopHead s
      | Raised e \<Rightarrow>
          set_pc i Finished
            (emit_queued (ConnectionThread i) (ErrorOccurred (''Data read error: '' @ e)) s)
      | Cancelled \<Rightarrow> connection_timeout i s)"

text \<open>\<open>run_disconnect_safe\<close>; the argument is the exception text if \<open>disconnect()\<close> raises.\<close>

definition run_disconnect_safe :: "string option \<Rightarrow> state \<Rightarrow> state" where
  "run_disconnect_safe r s =
     (let s1 = (if ble_client s \<noteq> None
                then s\<lparr>actions := actions s @ [(DisconnectThread, TransportDisconnect)]\<rparr> else s);
          s2 = (case r of Some e \<Rightarrow> if ble_client s \<noteq> None then log_message (LogDisconnectError e) s1 else s1
                | None \<Rightarrow> s1)
      in s2\<lparr>disconnect_threads := disconnect_threads s2 - 1\<rparr>)"

section \<open>The running process\<close>

text \<open>
  One event is one thing that happens in the process: a timer tick, a click on an enabled
  button, the main thread's event loop delivering the oldest queued signal to its slot, or a
  background thread moving from one await to the next. An event that cannot happen in a state
  (a click on a disabled button, a thread that is not at that control point) leaves it as it is.
  A scan thread awaits once and a disconnect thread once, so each runs as one event. Closing
  the window (\<open>closeEvent\<close>, \<open>force_close_app\<close>) and the methods that only read the
  table (graph, export, history) are left out; no event changes \<open>app_running\<close>.
\<close>

datatype event =
    Tick bool
  | ClickScan
  | ClickConnect
  | ClickDisconnect
  | ClickAutoRetry
  | ClickSimulate nat db_fault
  | SliderMoved int
  | Deliver db_fault
  | ScanRuns nat scan_input
  | DisconnectRuns "string option"
  | ThreadStarts nat "string option"
  | ConnectDone nat "bool awaited"
  | LoopTest nat bool
  | ReadDone nat "byte list awaited"
  | SleepDone nat "unit awaited"

fun slot :: "db_fault \<Rightarrow> signal \<Rightarrow> state \<Rightarrow> state" where
  "slot f (DataReceived v) s = on_data_received f v s"
| "slot f (ConnectionStatus st) s = on_connection_status st s"
| "slot f (DeviceFound a n) s = on_device_found a n s"
| "slot f (ErrorOccurred m) s = on_error_occurred m s"
| "slot f (ScanCompleted b) s = on_scan_completed b s"

definition at_pc :: "nat \<Rightarrow> pc \<Rightarrow> state \<Rightarrow> bool" where
  "at_pc i p s = (i < length (connection_threads s) \<and> connection_threads s ! i = p)"

fun step :: "event \<Rightarrow> state \<Rightarrow> state" where
  "step (Tick link) s = monitor_connection link s"
| "step ClickScan s = (if btn_scan_enabled s then safe_scan_devices s else s)"
| "step ClickConnect s = (if btn_connect_enabled s then safe_connect_device s else s)"
| "step ClickDisconnect s = (if btn_disconnect_enabled s then safe_disconnect_device s else s)"
| "step ClickAutoRetry s = toggle_auto_retry s"
| "step (ClickSimulate k f) s = simulate_torque_data k f s"
| "step (SliderMoved v) s = (if 10 \<le> v \<and> v \<le> 200 then update_threshold v s else s)"
| "step (Deliver f) s =
     (case pending s of [] \<Rightarrow> s | sig # rest \<Rightarrow> slot f sig (s\<lparr>pending := rest\<rparr>))"
| "step (ScanRuns j inp) s =
     (if j < length (scan_threads s) \<and> scan_threads s ! j then run_scan_safe j inp s else s)"
| "step (DisconnectRuns r) s = (if 0 < disconnect_threads s then run_disconnect_safe r s else s)"
| "step (ThreadStarts i e) s = (if at_pc i Created s then thread_start i e s else s)"
| "step (ConnectDone i r) s = (if at_pc i Connecting s then connect_done i r s else s)"
| "step (LoopTest i link) s = (if at_pc i LoopHead s then loop_test i link s else s)"
| "step (ReadDone i r) s = (if at_pc i Reading s then read_done i r s else s)"
| "step (SleepDone i r) s = (if at_pc i Sleeping s then sleep_done i r s else s)"

fun run :: "event list \<Rightarrow> state \<Rightarrow> state" where
  "run [] s = s"
| "run (e # es) s = run es (step e s)"

text \<open>
  The object as \<open>__init__\<close> leaves it, with the values of the two globals at import. The
  console holds the two lines \<open>__init__\<close> logs; the banner that \<open>setup_ui\<close> appends
  without \<open>log_message\<close> is left out.
\<close>

definition initial :: state where
  "initial =
     \<lparr>app_running = True, is_connected = False, connection_active = False, ble_client = None,
      retry_count = 0, max_retries = 3, auto_retry = False,
      SENSOR_ADDRESS = None, THRESHOLD = 100,
      torque_label = (Gold, NoEsp32Connected), connection_label = DisconnectedOperational,
      status_label = DashboardReady, error_label = None,
      btn_scan_enabled = True, btn_connect_enabled = False, btn_disconnect_enabled = False,
      console = [LogInitialized, LogWillRemainOpen], torque_data = [], actions = [], pending = [],
      connection_threads = [], scan_threads = [], disconnect_threads = 0\<rparr>"

section \<open>Measures and scenarios used in the statements\<close>

text \<open>The console line \<open>scan_loop\<close> writes for a device.\<close>

definition found_line :: "device \<Rightarrow> log_msg" where
  "found_line d = LogFound (device_name_of d) (address d)"

text \<open>A console line announcing an automatic reconnection attempt.\<close>

fun is_auto_retry :: "log_msg \<Rightarrow> bool" where
  "is_auto_retry (LogAutoRetry k n) = True"
| "is_auto_retry _ = False"

fun is_reading :: "action \<Rightarrow> bool" where
  "is_reading (Emit (DataReceived v)) = True"
| "is_reading _ = False"

text \<open>How often connection thread \<open>i\<close> has done an action of some kind so far.\<close>

definition done_by :: "nat \<Rightarrow> (action \<Rightarrow> bool) \<Rightarrow> state \<Rightarrow> nat" where
  "done_by i P s = length (filter (\<lambda>x. fst x = ConnectionThread i \<and> P (snd x)) (actions s))"

definition reads_by :: "nat \<Rightarrow> state \<Rightarrow> nat" where
  "reads_by i s = done_by i (\<lambda>a. a = TransportRead) s"

definition readings_by :: "nat \<Rightarrow> state \<Rightarrow> nat" where
  "readings_by i s = done_by i is_reading s"

definition sleeps_by :: "nat \<Rightarrow> state \<Rightarrow> nat" where
  "sleeps_by i s = done_by i (\<lambda>a. a = SleepStart) s"

text \<open>The read loop of connection thread \<open>i\<close> is active: the thread is inside the \<open>while\<close>.\<close>

definition in_read_loop :: "nat \<Rightarrow> state \<Rightarrow> bool" where
  "in_read_loop i s = (at_pc i LoopHead s \<or> at_pc i Reading s \<or> at_pc i Sleeping s)"

text \<open>The one event by which a connection comes to be reported as established.\<close>

fun establishes :: "event \<Rightarrow> bool" where
  "establishes (ConnectDone i (Returned link)) = link"
| "establishes _ = False"

definition no_connection_established :: "event list \<Rightarrow> state \<Rightarrow> bool" where
  "no_connection_established es s =
     (ConnectionStatus ''connected'' \<notin> set (pending s) \<and> list_all (\<lambda>e. \<not> establishes e) es)"

text \<open>
  What holds of connection thread \<open>i\<close>, whose read loop was active in state \<open>s0\<close>, from the
  moment \<open>is_connected\<close> is lowered and for as long as no connection is established: it has
  issued no transport read since \<open>s0\<close>; while the read that was in flight is still awaited it
  has emitted nothing and started no sleep; afterwards at most one reading and one sleep.
\<close>

definition halting :: "nat \<Rightarrow> state \<Rightarrow> state \<Rightarrow> bool" where
  "halting i s0 t =
     (\<not> is_connected t \<and> ConnectionStatus ''connected'' \<notin> set (pending t)
      \<and> reads_by i t = reads_by i s0
      \<and> ((at_pc i Reading t \<and> readings_by i t = readings_by i s0 \<and> sleeps_by i t = sleeps_by i s0)
         \<or> ((at_pc i Sleeping t \<or> at_pc i LoopHead t \<or> at_pc i Finished t)
             \<and> readings_by i t \<le> readings_by i s0 + 1 \<and> sleeps_by i t \<le> sleeps_by i s0 + 1)))"

text \<open>Thread \<open>i\<close> has returned and has neither read nor emitted a reading since state \<open>t\<close>.\<close>

definition quiet :: "nat \<Rightarrow> state \<Rightarrow> state \<Rightarrow> bool" where
  "quiet i t u =
     (at_pc i Finished u \<and> reads_by i u = reads_by i t \<and> readings_by i u = readings_by i t)"

text \<open>What holds of the retry counter in every state the process can reach.\<close>

definition retry_count_inv :: "state \<Rightarrow> bool" where
  "retry_count_inv s =
     (0 \<le> retry_count s \<and> retry_count s \<le> 1 \<and> (is_connected s \<longrightarrow> retry_count s = 0))"

text \<open>Two devices, and the events that take the fresh process to a connect attempt in
  flight and to a running read loop.\<close>

definition phone :: device where
  "phone = \<lparr>address = ''11:22:33:44:55:66'', name = Some ''Phone''\<rparr>"

definition sensor :: device where
  "sensor = \<lparr>address = ''24:6F:28:AA:BB:CC'', name = Some ''ESP32_Torque''\<rparr>"

definition spare_sensor :: device where
  "spare_sensor = \<lparr>address = ''24:6F:28:DD:EE:FF'', name = Some ''Spare ESP32_Torque''\<rparr>"

definition nameless :: device where
  "nameless = \<lparr>address = ''77:88:99:00:11:22'', name = None\<rparr>"

definition to_connecting :: "event list" where
  "to_connecting =
     [ClickAutoRetry, ClickScan, ScanRuns 0 (Discover (Returned [phone, sensor])),
      Deliver NoFault, Deliver NoFault, ClickConnect, ThreadStarts 0 None]"

definition to_streaming :: "event list" where
  "to_streaming =
     to_connecting @
     [ConnectDone 0 (Returned True), Deliver NoFault, LoopTest 0 True,
      ReadDone 0 (Returned [42, 0]), Deliver NoFault, SleepDone 0 (Returned ())]"

text \<open>Events after a stop or an error: the read in flight returns, the reading is delivered,
  the sleep ends, the timer ticks.\<close>

definition winding_down :: "event list" where
  "winding_down = [ReadDone 0 (Returned [7, 1]), Deliver NoFault, SleepDone 0 (Returned ()), Tick True]"

definition to_reading :: "event list" where
  "to_reading = to_streaming @ [LoopTest 0 True]"

text \<open>
  Events after a stop or an error that bring a new connection up before the first thread
  tests its loop condition again: a click on Connect, a second thread that connects, its
  status delivered; then the first thread's read returns, its sleep ends, and it tests.
\<close>

definition restarted :: "event list" where
  "restarted =
     [ClickConnect, ThreadStarts 1 None, ConnectDone 1 (Returned True), Deliver NoFault,
      ReadDone 0 (Returned [7, 1]), SleepDone 0 (Returned ()), LoopTest 0 True]"

text \<open>After the read loop ran, the link dropped and the reconnection failed: a click on
  Connect whose connection comes up, its status still queued.\<close>

definition reconnected_by_hand :: "event list" where
  "reconnected_by_hand = [ClickConnect, ThreadStarts 2 None, ConnectDone 2 (Returned True)]"

text \<open>The link drops without a word, the timer notices, and the reconnection fails.\<close>

definition link_lost_then_connect_fails :: "nat \<Rightarrow> event list" where
  "link_lost_then_connect_fails i =
     [LoopTest (i - 1) False, Tick False, ThreadStarts i None,
      ConnectDone i (Raised ''device not found''), Deliver NoFault, Deliver NoFault]"

section \<open>Properties\<close>

lemmas main_thread_defs =
  monitor_connection_def safe_connect_device_def emit_error_occurred_def on_error_occurred_def
  update_connection_status_def log_message_def safe_scan_devices_def on_scan_completed_def
  on_device_found_def on_connection_status_def safe_disconnect_device_def toggle_auto_retry_def
  save_torque_value_def on_data_received_def update_threshold_def simulate_torque_data_def

lemmas thread_defs =
  emit_queued_def set_pc_def connection_timeout_def thread_start_def connect_done_def
  loop_test_def read_done_def sleep_done_def run_disconnect_safe_def

subsection \<open>Classification of a reading\<close>

text \<open>
  C1. Whatever the threshold and the value, and whether or not the row could be saved,
  \<open>on_data_received\<close> shows the reading as high torque (red) exactly when the value is
  strictly above the threshold in force when the reading is handled, and as normal torque
  (green) exactly when it is not; a value equal to the threshold is shown as normal.
\<close>

theorem classification_strict:
  "(torque_label (on_data_received f v s) = (Red, HighTorque v)) = (THRESHOLD s < v)
   \<and> (torque_label (on_data_received f v s) = (Green, Torque v)) = (v \<le> THRESHOLD s)
   \<and> torque_label (on_data_received f (THRESHOLD s) s) = (Green, Torque (THRESHOLD s))"
  by (cases f) (simp_all add: on_data_received_def save_torque_value_def log_message_def Let_def)

theorem classification_strict_witness:
  "torque_label (on_data_received NoFault 101 initial) = (Red, HighTorque 101)
   \<and> torque_label (on_data_received NoFault 100 initial) = (Green, Torque 100)"
  using classification_strict [of NoFault 101 initial] classification_strict [of NoFault 100 initial]
  by (simp add: initial_def)

subsection \<open>The scan\<close>

lemma py_in_iff: "py_in p t = (\<exists>a b. t = a @ p @ b)"
proof (induction t)
  case Nil
  then show ?case by auto
next
  case (Cons c cs)
  show ?case
  proof
    assume "py_in p (c # cs)"
    then consider "take (length p) (c # cs) = p" | "py_in p cs" by auto
    then show "\<exists>a b. c # cs = a @ p @ b"
    proof cases
      case 1
      then have "c # cs = [] @ p @ drop (length p) (c # cs)"
        by (metis append_Nil append_take_drop_id)
      then show ?thesis by blast
    next
      case 2
      then obtain a b where "cs = a @ p @ b" using Cons.IH by blast
      then have "c # cs = (c # a) @ p @ b" by simp
      then show ?thesis by blast
    qed
  next
    assume "\<exists>a b. c # cs = a @ p @ b"
    then obtain a b where ab: "c # cs = a @ p @ b" by blast
    show "py_in p (c # cs)"
    proof (cases a)
      case Nil
      then have "take (length p) (c # cs) = p" using ab by simp
      then show ?thesis by simp
    next
      case (Cons x a')
      then have "cs = a' @ p @ b" using ab by simp
      then have "py_in p cs" using Cons.IH by blast
      then show ?thesis by simp
    qed
  qed
qed

lemma matches_iff:
  "matches d = (\<exists>n a b. name d = Some n \<and> n \<noteq> [] \<and> n = a @ ''ESP32_To'' @ b)"
proof (cases "name d")
  case None
  then show ?thesis by (simp add: matches_def device_name_of_def)
next
  case (Some n)
  show ?thesis
  proof (cases "n = []")
    case True
    then show ?thesis using Some by (simp add: matches_def device_name_of_def)
  next
    case False
    then show ?thesis using Some by (simp add: matches_def device_name_of_def py_in_iff)
  qed
qed

lemma scan_loop_first_match:
  "scan_loop j devices s =
     (case find matches devices of
        None \<Rightarrow> (False, s\<lparr>console := console s @ map found_line devices\<rparr>)
      | Some d \<Rightarrow>
          (True, s\<lparr>console := console s @ map found_line (takeWhile (\<lambda>x. \<not> matches x) devices) @ [found_line d],
                   actions := actions s @ [(ScanThread j, Emit (DeviceFound (address d) (device_name_of d)))],
                   pending := pending s @ [DeviceFound (address d) (device_name_of d)]\<rparr>))"
proof (induction devices arbitrary: s)
  case Nil
  show ?case by simp
next
  case (Cons d ds)
  show ?case
  proof (cases "matches d")
    case True
    then show ?thesis
      by (simp add: log_message_def emit_queued_def found_line_def)
  next
    case False
    then show ?thesis
      by (simp add: Cons.IH log_message_def found_line_def split: option.split)
  qed
qed

lemma run_scan_safe_frame:
  "\<exists>c sigs. run_scan_safe j inp s =
      s\<lparr>console := console s @ c,
        actions := actions s @ map (\<lambda>x. (ScanThread j, Emit x)) sigs,
        pending := pending s @ sigs,
        scan_threads := (scan_threads s)[j := False]\<rparr>
      \<and> ConnectionStatus ''connected'' \<notin> set sigs"
proof (cases inp)
  case (LoopSetupRaises e)
  then show ?thesis
    apply (simp add: run_scan_safe_def emit_queued_def)
    apply (rule exI[of _ "[]"])
    apply (rule exI[of _ "[ErrorOccurred (''Scan error: '' @ e), ScanCompleted False, ScanCompleted True]"])
    apply simp
    done
next
  case (Discover r)
  show ?thesis
  proof (cases r)
    case (Returned devices)
    show ?thesis
    proof (cases "find matches devices")
      case None
      then show ?thesis using Discover Returned
        apply (simp add: run_scan_safe_def scan_ble_devices_safe_def scan_loop_first_match emit_queued_def log_message_def Let_def)
        apply (rule exI[of _ "[LogScanning, LogFoundCount (length devices)] @ map found_line devices @ [LogNoEsp32Found]"])
        apply (rule exI[of _ "[ScanCompleted True]"])
        apply simp
        done
    next
      case (Some d)
      then show ?thesis using Discover Returned
        apply (simp add: run_scan_safe_def scan_ble_devices_safe_def scan_loop_first_match emit_queued_def log_message_def Let_def)
        apply (rule exI[of _ "[LogScanning, LogFoundCount (length devices)] @ map found_line (takeWhile (\<lambda>x. \<not> matches x) devices) @ [found_line d]"])
        apply (rule exI[of _ "[DeviceFound (address d) (device_name_of d), ScanCompleted True]"])
        apply simp
        done
    qed
  next
    case (Raised e)
    then show ?thesis using Discover
        apply (simp add: run_scan_safe_def scan_ble_devices_safe_def emit_queued_def log_message_def Let_def)
        apply (rule exI[of _ "[LogScanning]"])
        apply (rule exI[of _ "[ErrorOccurred (''BLE scan failed: '' @ e), ScanCompleted True]"])
        apply simp
        done
  next
    case Cancelled
    then show ?thesis using Discover
        apply (simp add: run_scan_safe_def scan_ble_devices_safe_def emit_queued_def log_message_def Let_def)
        apply (rule exI[of _ "[LogScanning]"])
        apply (rule exI[of _ "[ErrorOccurred ''Scan timeout - ESP32 may not be available'', ScanCompleted False, ScanCompleted True]"])
        apply simp
        done
  qed
qed

text \<open>
  C2. A device matches exactly when it has a non-empty name in which \<open>ESP32_To\<close> occurs.
  A scan whose enumeration returns a list of devices changes the process as follows. If no
  device matches, every device is logged and nothing is emitted but the completion signal. If
  some device matches, the devices before the first matching one and that one are logged, one
  \<open>device_found\<close> is emitted, for that first matching device, and the devices after it
  are neither logged nor looked at; the completion signal follows.
\<close>

theorem scan_reports_first_match:
  "(\<forall>d. matches d = (\<exists>n a b. name d = Some n \<and> n \<noteq> [] \<and> n = a @ ''ESP32_To'' @ b))
   \<and> run_scan_safe j (Discover (Returned devices)) s =
     (case find matches devices of
        None \<Rightarrow>
          s\<lparr>console := console s @ [LogScanning, LogFoundCount (length devices)]
                         @ map found_line devices @ [LogNoEsp32Found],
            actions := actions s @ [(ScanThread j, Emit (ScanCompleted True))],
            pending := pending s @ [ScanCompleted True],
            scan_threads := (scan_threads s)[j := False]\<rparr>
      | Some d \<Rightarrow>
          s\<lparr>console := console s @ [LogScanning, LogFoundCount (length devices)]
                         @ map found_line (takeWhile (\<lambda>x. \<not> matches x) devices) @ [found_line d],
            actions := actions s @ [(ScanThread j, Emit (DeviceFound (address d) (device_name_of d))),
                                    (ScanThread j, Emit (ScanCompleted True))],
            pending := pending s @ [DeviceFound (address d) (device_name_of d), ScanCompleted True],
            scan_threads := (scan_threads s)[j := False]\<rparr>)"
  by (simp add: matches_iff run_scan_safe_def scan_ble_devices_safe_def scan_loop_first_match
                log_message_def emit_queued_def Let_def split: option.split)

theorem scan_reports_first_match_witness:
  "pending (run_scan_safe 0 (Discover (Returned [nameless, phone, sensor, spare_sensor])) initial)
     = [DeviceFound ''24:6F:28:AA:BB:CC'' ''ESP32_Torque'', ScanCompleted True]
   \<and> console (run_scan_safe 0 (Discover (Returned [nameless, phone, sensor, spare_sensor])) initial)
     = [LogInitialized, LogWillRemainOpen, LogScanning, LogFoundCount 4,
        LogFound ''Unknown'' ''77:88:99:00:11:22'', LogFound ''Phone'' ''11:22:33:44:55:66'',
        LogFound ''ESP32_Torque'' ''24:6F:28:AA:BB:CC'']"
  using scan_reports_first_match [of 0 "[nameless, phone, sensor, spare_sensor]" initial]
  by (simp add: initial_def nameless_def phone_def sensor_def spare_sensor_def matches_def
                device_name_of_def found_line_def)

text \<open>
  C7. A scan that enumerates one device, which does not match, emits no \<open>device_found\<close>
  and logs that no device was found; the only signal it emits is \<open>scan_completed(True)\<close>,
  so the main thread is told the scan succeeded and \<open>scan_completed(False)\<close> is never sent.
\<close>

theorem scan_without_match_reports_success:
  "pending (run [ClickScan, ScanRuns 0 (Discover (Returned [phone]))] initial) = [ScanCompleted True]
   \<and> console (run [ClickScan, ScanRuns 0 (Discover (Returned [phone]))] initial) =
       [LogInitialized, LogWillRemainOpen, LogStartingScan, LogScanning, LogFoundCount 1,
        LogFound ''Phone'' ''11:22:33:44:55:66'', LogNoEsp32Found]
   \<and> console (run [ClickScan, ScanRuns 0 (Discover (Returned [phone])), Deliver NoFault] initial) =
       [LogInitialized, LogWillRemainOpen, LogStartingScan, LogScanning, LogFoundCount 1,
        LogFound ''Phone'' ''11:22:33:44:55:66'', LogNoEsp32Found]"
  by code_simp

subsection \<open>Saving and decoding a reading\<close>

text \<open>
  C9, as stated, fails: when it is \<open>close\<close> that raises, the commit has been made; the
  failure is caught and logged like any other, nothing is emitted, and the row is in the table.
\<close>

theorem close_failure_keeps_row_counterexample:
  "CloseRaises ''unable to close'' \<noteq> NoFault
   \<and> torque_data (on_data_received (CloseRaises ''unable to close'') 150 initial) = [150]
   \<and> actions (on_data_received (CloseRaises ''unable to close'') 150 initial) = []
   \<and> console (on_data_received (CloseRaises ''unable to close'') 150 initial)
       = [LogInitialized, LogWillRemainOpen, LogDatabaseSaveError ''unable to close'', LogReceived 150]"
  by code_simp

text \<open>
  C9, amended. When \<open>save_torque_value\<close> raises, whatever the call that raises, handling the
  reading emits no signal (neither directly nor queued); the console gets the save error and
  then the reading; and the reading is classified and shown as for a saved one. The table is
  left as it was when the exception comes before the commit has returned (from \<open>connect\<close>,
  \<open>cursor\<close>, \<open>execute\<close> or \<open>commit\<close>); when \<open>close\<close> raises the row is there.
\<close>

theorem save_failure_is_swallowed:
  assumes "fault \<noteq> NoFault"
  shows "actions (on_data_received fault v s) = actions s
       \<and> pending (on_data_received fault v s) = pending s
       \<and> (\<exists>e. console (on_data_received fault v s) = console s @ [LogDatabaseSaveError e, LogReceived v])
       \<and> torque_label (on_data_received fault v s) =
           (if THRESHOLD s < v then (Red, HighTorque v) else (Green, Torque v))
       \<and> torque_data (on_data_received fault v s) =
           (case fault of CloseRaises e \<Rightarrow> torque_data s @ [v] | _ \<Rightarrow> torque_data s)"
  using assms
  by (cases fault) (simp_all add: on_data_received_def save_torque_value_def log_message_def Let_def)

theorem save_failure_is_swallowed_witness:
  "ExecuteRaises ''database is locked'' \<noteq> NoFault
   \<and> actions (on_data_received (ExecuteRaises ''database is locked'') 150 initial) = []
   \<and> pending (on_data_received (ExecuteRaises ''database is locked'') 150 initial) = []
   \<and> torque_label (on_data_received (ExecuteRaises ''database is locked'') 150 initial) = (Red, HighTorque 150)
   \<and> torque_data (on_data_received (ExecuteRaises ''database is locked'') 150 initial) = []
   \<and> CloseRaises ''unable to close'' \<noteq> NoFault
   \<and> pending (on_data_received (CloseRaises ''unable to close'') 150 initial) = []
   \<and> torque_data (on_data_received (CloseRaises ''unable to close'') 150 initial) = [150]"
  using save_failure_is_swallowed [of "ExecuteRaises ''database is locked''" 150 initial]
    save_failure_is_swallowed [of "CloseRaises ''unable to close''" 150 initial]
  by (simp add: initial_def)

lemma from_bytes_little_bounds: "0 \<le> from_bytes_little bs \<and> from_bytes_little bs < 256 ^ length bs"
proof (induction bs)
  case Nil
  show ?case by simp
next
  case (Cons b bs)
  have "uint b < 256" using uint_bounded[of b] by simp
  moreover have "0 \<le> uint b" by simp
  ultimately show ?case using Cons by simp
qed

lemma from_bytes_little_sum:
  "from_bytes_little bs = (\<Sum>k<length bs. uint (bs ! k) * 256 ^ k)"
proof (induction bs)
  case Nil
  show ?case by simp
next
  case (Cons b bs)
  have "(\<Sum>k<length (b # bs). uint ((b # bs) ! k) * 256 ^ k)
        = (\<Sum>k<Suc (length bs). uint ((b # bs) ! k) * 256 ^ k)"
    by simp
  also have "\<dots> = uint b + (\<Sum>k<length bs. uint (bs ! k) * 256 ^ Suc k)"
    by (subst sum.lessThan_Suc_shift) simp
  also have "\<dots> = uint b + 256 * (\<Sum>k<length bs. uint (bs ! k) * 256 ^ k)"
    by (simp add: sum_distrib_left mult.assoc mult.left_commute)
  finally show ?case using Cons by simp
qed

lemma c_int_fits: "0 \<le> v \<Longrightarrow> v < 2 ^ 31 \<Longrightarrow> c_int v = v"
  by (simp add: c_int_def sint_sbintrunc' signed_take_bit_int_eq_self_iff)

text \<open>
  C10. \<open>from_bytes_little\<close> gives every byte string, of any length, the non-negative integer
  whose base 256 digits are its bytes, least significant first; the empty string gives 0. A read
  that returns a payload always goes on to emit and to sleep: there is no error exit between
  the return of the read and the emission. What is emitted is the decoded value as the
  signal's C \<open>int\<close> carries it: 0 for the empty payload, the decoded value itself whenever
  that is below \<open>2 ^ 31\<close>.
\<close>

theorem decode_total_little_endian:
  "0 \<le> from_bytes_little bs
   \<and> from_bytes_little bs < 256 ^ length bs
   \<and> from_bytes_little bs = (\<Sum>k<length bs. uint (bs ! k) * 256 ^ k)
   \<and> from_bytes_little [] = 0
   \<and> read_done i (Returned bs) s =
       set_pc i Sleeping
         (s\<lparr>actions := actions s @ [(ConnectionThread i, Emit (DataReceived (c_int (from_bytes_little bs)))),
                                     (ConnectionThread i, SleepStart)],
            pending := pending s @ [DataReceived (c_int (from_bytes_little bs))]\<rparr>)
   \<and> read_done i (Returned []) s =
       set_pc i Sleeping
         (s\<lparr>actions := actions s @ [(ConnectionThread i, Emit (DataReceived 0)),
                                     (ConnectionThread i, SleepStart)],
            pending := pending s @ [DataReceived 0]\<rparr>)
   \<and> (from_bytes_little bs < 2 ^ 31 \<longrightarrow> c_int (from_bytes_little bs) = from_bytes_little bs)"
proof -
  have b: "0 \<le> from_bytes_little bs \<and> from_bytes_little bs < 256 ^ length bs"
    by (rule from_bytes_little_bounds)
  have c: "c_int (from_bytes_little bs) = from_bytes_little bs" if "from_bytes_little bs < 2 ^ 31"
    using b that by (simp add: c_int_fits)
  have z: "c_int 0 = 0" by (simp add: c_int_def)
  show ?thesis
    using b c z from_bytes_little_sum [of bs]
    by (simp add: read_done_def emit_queued_def set_pc_def Let_def)
qed

theorem decode_total_little_endian_witness:
  "from_bytes_little [0x10, 0x01] = 272
   \<and> from_bytes_little [0x10, 0x01] < 2 ^ 31
   \<and> pending (read_done 0 (Returned [0x10, 0x01]) initial) = [DataReceived 272]
   \<and> pending (read_done 0 (Returned []) initial) = [DataReceived 0]
   \<and> from_bytes_little [0, 0, 0, 128] = 2147483648
   \<and> pending (read_done 0 (Returned [0, 0, 0, 128]) initial) = [DataReceived (- 2147483648)]"
proof -
  have a: "from_bytes_little [0x10, 0x01] = 272" by simp
  have b: "from_bytes_little [0, 0, 0, 128] = 2147483648" by simp
  have c: "c_int 2147483648 = - 2147483648" by (simp add: c_int_def)
  show ?thesis
    using a b c decode_total_little_endian [of "[0x10, 0x01]" 0 initial]
      decode_total_little_endian [of "[]" 0 initial]
      decode_total_little_endian [of "[0, 0, 0, 128]" 0 initial]
    by (simp add: initial_def set_pc_def)
qed

subsection \<open>The retry counter\<close>

lemma step_retry_count_inv:
  assumes inv: "retry_count_inv s"
  shows "retry_count_inv (step e s)"
proof (cases e)
  case (Tick link)
  then show ?thesis using inv
    by (auto simp: retry_count_inv_def main_thread_defs Let_def)
next
  case (Deliver f)
  show ?thesis
  proof (cases "pending s")
    case Nil
    then show ?thesis using Deliver inv by simp
  next
    case (Cons sig rest)
    then show ?thesis using Deliver inv
      by (cases sig) (auto simp: retry_count_inv_def main_thread_defs Let_def split: db_fault.splits)
  qed
next
  case (ScanRuns j inp)
  obtain c sigs where "run_scan_safe j inp s =
      s\<lparr>console := console s @ c,
        actions := actions s @ map (\<lambda>x. (ScanThread j, Emit x)) sigs,
        pending := pending s @ sigs,
        scan_threads := (scan_threads s)[j := False]\<rparr>"
    using run_scan_safe_frame by blast
  then show ?thesis using ScanRuns inv by (simp add: retry_count_inv_def)
next
  case ClickScan
  then show ?thesis using inv by (simp add: retry_count_inv_def main_thread_defs Let_def)
next
  case ClickConnect
  then show ?thesis using inv by (simp add: retry_count_inv_def main_thread_defs Let_def)
next
  case ClickDisconnect
  then show ?thesis using inv by (simp add: retry_count_inv_def main_thread_defs Let_def)
next
  case ClickAutoRetry
  then show ?thesis using inv by (simp add: retry_count_inv_def main_thread_defs Let_def)
next
  case (ClickSimulate k f)
  then show ?thesis using inv
    by (simp add: retry_count_inv_def main_thread_defs Let_def split: db_fault.splits)
next
  case (SliderMoved v)
  then show ?thesis using inv by (simp add: retry_count_inv_def main_thread_defs Let_def)
next
  case (DisconnectRuns r)
  then show ?thesis using inv
    by (simp add: retry_count_inv_def thread_defs log_message_def Let_def split: option.splits)
next
  case (ThreadStarts i r)
  then show ?thesis using inv
    by (simp add: retry_count_inv_def thread_defs Let_def split: option.splits)
next
  case (ConnectDone i r)
  then show ?thesis using inv
    by (simp add: retry_count_inv_def thread_defs Let_def split: awaited.splits)
next
  case (LoopTest i link)
  then show ?thesis using inv
    by (simp add: retry_count_inv_def thread_defs Let_def)
next
  case (ReadDone i r)
  then show ?thesis using inv
    by (simp add: retry_count_inv_def thread_defs Let_def split: awaited.splits)
next
  case (SleepDone i r)
  then show ?thesis using inv
    by (simp add: retry_count_inv_def thread_defs Let_def split: awaited.splits)
qed

lemma run_retry_count_inv: "retry_count_inv s \<Longrightarrow> retry_count_inv (run es s)"
  by (induction es arbitrary: s) (simp_all add: step_retry_count_inv)

lemma retry_count_never_exceeds_one: "retry_count (run es initial) \<le> 1"
proof -
  have "retry_count_inv initial" by (simp add: retry_count_inv_def initial_def)
  then have "retry_count_inv (run es initial)" by (rule run_retry_count_inv)
  then show ?thesis by (simp add: retry_count_inv_def)
qed


text \<open>
  C3. Automatic retry is on and the limit is 3. The read loop runs, the link drops, the timer
  notices and starts a reconnection, which fails; four more timer ticks follow. One automatic
  attempt is announced and made in all (\<open>1/3\<close>): two connection threads exist, the manual one
  and that one, and the counter stays at 1.
\<close>

theorem one_automatic_retry_only:
  "filter is_auto_retry
     (console (run (to_streaming @ link_lost_then_connect_fails 1
                      @ [Tick False, Tick False, Tick False, Tick False]) initial))
     = [LogAutoRetry 1 3]
   \<and> connection_threads (run (to_streaming @ link_lost_then_connect_fails 1
                      @ [Tick False, Tick False, Tick False, Tick False]) initial)
     = [Finished, Finished]
   \<and> retry_count (run (to_streaming @ link_lost_then_connect_fails 1
                      @ [Tick False, Tick False, Tick False, Tick False]) initial) = 1
   \<and> auto_retry (run to_streaming initial) \<and> max_retries (run to_streaming initial) = 3
   \<and> retry_count (run to_streaming initial) = 0"
  by code_simp

text \<open>
  C4. The \<open>connected\<close> status and the discovery of a device both set the retry counter to 0,
  whatever it was. So when automatic retry is on, the limit is positive and a client exists,
  the first loss of the link that the timer notices after a \<open>connected\<close> status is announced
  as attempt 1 and leaves the counter at 1, whatever failures came before that connection.
\<close>

theorem retry_count_reset:
  "retry_count (on_connection_status ''connected'' s) = 0
   \<and> retry_count (on_device_found a n s) = 0
   \<and> (app_running s \<and> auto_retry s \<and> 0 < max_retries s \<and> ble_client s \<noteq> None \<longrightarrow>
        retry_count (monitor_connection False (on_connection_status ''connected'' s)) = 1
      \<and> filter is_auto_retry (console (monitor_connection False (on_connection_status ''connected'' s)))
          = filter is_auto_retry (console s) @ [LogAutoRetry 1 (max_retries s)])"
  by (auto simp: main_thread_defs Let_def)

theorem retry_count_reset_witness:
  "retry_count (run (to_streaming @ link_lost_then_connect_fails 1 @ reconnected_by_hand) initial) = 1
   \<and> retry_count (run (to_streaming @ link_lost_then_connect_fails 1 @ reconnected_by_hand
                        @ [Deliver NoFault]) initial) = 0
   \<and> retry_count (monitor_connection False (on_connection_status ''connected''
        (run (to_streaming @ link_lost_then_connect_fails 1 @ reconnected_by_hand) initial))) = 1
   \<and> filter is_auto_retry (console (monitor_connection False (on_connection_status ''connected''
        (run (to_streaming @ link_lost_then_connect_fails 1 @ reconnected_by_hand) initial))))
       = [LogAutoRetry 1 3, LogAutoRetry 1 3]
   \<and> filter is_auto_retry (console
        (run (to_streaming @ link_lost_then_connect_fails 1 @ reconnected_by_hand
                @ [Deliver NoFault, Tick False]) initial))
       = [LogAutoRetry 1 3, LogAutoRetry 1 3]"
proof -
  let ?s = "run (to_streaming @ link_lost_then_connect_fails 1 @ reconnected_by_hand) initial"
  have a: "app_running ?s \<and> auto_retry ?s \<and> 0 < max_retries ?s \<and> ble_client ?s \<noteq> None" by code_simp
  have b: "retry_count ?s = 1" by code_simp
  have c: "filter is_auto_retry (console ?s) = [LogAutoRetry 1 3]" by code_simp
  have d: "max_retries ?s = 3" by code_simp
  have e: "retry_count (run (to_streaming @ link_lost_then_connect_fails 1 @ reconnected_by_hand
                        @ [Deliver NoFault]) initial) = 0" by code_simp
  have f: "filter is_auto_retry (console
        (run (to_streaming @ link_lost_then_connect_fails 1 @ reconnected_by_hand
                @ [Deliver NoFault, Tick False]) initial))
       = [LogAutoRetry 1 3, LogAutoRetry 1 3]" by code_simp
  show ?thesis using a b c d e f retry_count_reset [of ?s] by simp
qed

subsection \<open>Starting a connection\<close>

text \<open>
  C5, as stated, fails: with a connect attempt in flight, and with the read loop running, a
  call of \<open>safe_connect_device\<close> starts a second connection thread beside the live one and
  changes the state.
\<close>

theorem connect_not_idempotent_counterexample:
  "at_pc 0 Connecting (run to_connecting initial)
   \<and> connection_active (run to_connecting initial)
   \<and> connection_threads (safe_connect_device (run to_connecting initial)) = [Connecting, Created]
   \<and> safe_connect_device (run to_connecting initial) \<noteq> run to_connecting initial
   \<and> in_read_loop 0 (run to_streaming initial)
   \<and> is_connected (run to_streaming initial)
   \<and> connection_threads (safe_connect_device (run to_streaming initial)) = [LoopHead, Created]
   \<and> safe_connect_device (run to_streaming initial) \<noteq> run to_streaming initial"
  by code_simp

text \<open>
  C5, amended. With a device address known, every call of \<open>safe_connect_device\<close> starts one
  more connection thread, raises \<open>connection_active\<close> and disables the Connect button,
  whatever the session is doing. The \<open>connected\<close> status disables the button too. A click on
  the disabled button does nothing at all.
\<close>

theorem connect_always_starts_thread:
  assumes "SENSOR_ADDRESS s = Some a" and "a \<noteq> []"
  shows "connection_threads (safe_connect_device s) = connection_threads s @ [Created]
       \<and> connection_active (safe_connect_device s)
       \<and> \<not> btn_connect_enabled (safe_connect_device s)
       \<and> step ClickConnect (safe_connect_device s) = safe_connect_device s
       \<and> \<not> btn_connect_enabled (on_connection_status ''connected'' s)
       \<and> step ClickConnect (on_connection_status ''connected'' s) = on_connection_status ''connected'' s"
  using assms by (simp add: main_thread_defs)

theorem connect_always_starts_thread_witness:
  "SENSOR_ADDRESS (run to_connecting initial) = Some ''24:6F:28:AA:BB:CC''
   \<and> connection_threads (safe_connect_device (run to_connecting initial)) = [Connecting, Created]
   \<and> step ClickConnect (safe_connect_device (run to_connecting initial))
       = safe_connect_device (run to_connecting initial)"
proof -
  have a: "SENSOR_ADDRESS (run to_connecting initial) = Some ''24:6F:28:AA:BB:CC''" by code_simp
  have b: "''24:6F:28:AA:BB:CC'' \<noteq> []" by simp
  have c: "connection_threads (run to_connecting initial) = [Connecting]" by code_simp
  show ?thesis using a c connect_always_starts_thread [OF a b] by simp
qed

subsection \<open>Leaving the read loop\<close>

lemmas count_defs = halting_def at_pc_def reads_by_def readings_by_def sleeps_by_def done_by_def

lemma step_halting:
  assumes inv: "halting i s0 t" and ne: "\<not> establishes e"
  shows "halting i s0 (step e t)"
proof (cases e)
  case (Tick link)
  then show ?thesis using inv
    by (auto simp: count_defs main_thread_defs Let_def nth_append)
next
  case (Deliver f)
  show ?thesis
  proof (cases "pending t")
    case Nil
    then show ?thesis using Deliver inv by simp
  next
    case (Cons sig rest)
    then show ?thesis using Deliver inv
      by (cases sig) (auto simp: count_defs main_thread_defs Let_def split: db_fault.splits)
  qed
next
  case (ScanRuns j inp)
  obtain c sigs where "run_scan_safe j inp t =
      t\<lparr>console := console t @ c,
        actions := actions t @ map (\<lambda>x. (ScanThread j, Emit x)) sigs,
        pending := pending t @ sigs,
        scan_threads := (scan_threads t)[j := False]\<rparr>
      \<and> ConnectionStatus ''connected'' \<notin> set sigs"
    using run_scan_safe_frame by blast
  then show ?thesis using ScanRuns inv by (auto simp: count_defs filter_map comp_def)
next
  case ClickScan
  then show ?thesis using inv by (auto simp: count_defs main_thread_defs Let_def)
next
  case ClickConnect
  then show ?thesis using inv by (auto simp: count_defs main_thread_defs Let_def nth_append)
next
  case ClickDisconnect
  then show ?thesis using inv by (auto simp: count_defs main_thread_defs Let_def)
next
  case ClickAutoRetry
  then show ?thesis using inv by (auto simp: count_defs main_thread_defs Let_def)
next
  case (ClickSimulate k f)
  then show ?thesis using inv
    by (auto simp: count_defs main_thread_defs Let_def split: db_fault.splits)
next
  case (SliderMoved v)
  then show ?thesis using inv by (auto simp: count_defs main_thread_defs Let_def)
next
  case (DisconnectRuns r)
  then show ?thesis using inv
    by (auto simp: count_defs thread_defs log_message_def Let_def split: option.splits)
next
  case (ThreadStarts k r)
  then show ?thesis using inv
    by (auto simp: count_defs thread_defs Let_def nth_list_update split: option.splits)
next
  case (ConnectDone k r)
  then show ?thesis using inv ne
    by (auto simp: count_defs thread_defs Let_def nth_list_update split: awaited.splits)
next
  case (LoopTest k link)
  then show ?thesis using inv
    by (auto simp: count_defs thread_defs Let_def nth_list_update)
next
  case (ReadDone k r)
  then show ?thesis using inv
    by (auto simp: count_defs thread_defs Let_def nth_list_update split: awaited.splits)
next
  case (SleepDone k r)
  then show ?thesis using inv
    by (auto simp: count_defs thread_defs Let_def nth_list_update split: awaited.splits)
qed

lemma run_halting:
  "halting i s0 t \<Longrightarrow> list_all (\<lambda>e. \<not> establishes e) es \<Longrightarrow> halting i s0 (run es t)"
  by (induction es arbitrary: t) (simp_all add: step_halting)

lemma run_append: "run (es @ es') s = run es' (run es s)"
  by (induction es arbitrary: s) simp_all

lemma halting_after_disconnect:
  "in_read_loop i s \<Longrightarrow> ConnectionStatus ''connected'' \<notin> set (pending s)
     \<Longrightarrow> halting i s (safe_disconnect_device s)"
  by (auto simp: in_read_loop_def count_defs main_thread_defs Let_def)

lemma halting_after_error:
  "in_read_loop i s \<Longrightarrow> ConnectionStatus ''connected'' \<notin> set (pending s)
     \<Longrightarrow> halting i s (on_error_occurred m s)"
  by (auto simp: in_read_loop_def count_defs main_thread_defs Let_def)

lemma halting_leaves_loop:
  assumes "halting i s0 t"
  shows "at_pc i Finished (run [ReadDone i r, SleepDone i w, LoopTest i link] t)"
  using assms
  by (auto simp: count_defs thread_defs Let_def split: awaited.splits)

lemmas quiet_defs = quiet_def at_pc_def reads_by_def readings_by_def done_by_def

lemma step_quiet:
  assumes inv: "quiet i t0 t"
  shows "quiet i t0 (step e t)"
proof (cases e)
  case (Tick link)
  then show ?thesis using inv
    by (auto simp: quiet_defs main_thread_defs Let_def nth_append)
next
  case (Deliver f)
  show ?thesis
  proof (cases "pending t")
    case Nil
    then show ?thesis using Deliver inv by simp
  next
    case (Cons sig rest)
    then show ?thesis using Deliver inv
      by (cases sig) (auto simp: quiet_defs main_thread_defs Let_def split: db_fault.splits)
  qed
next
  case (ScanRuns j inp)
  obtain c sigs where "run_scan_safe j inp t =
      t\<lparr>console := console t @ c,
        actions := actions t @ map (\<lambda>x. (ScanThread j, Emit x)) sigs,
        pending := pending t @ sigs,
        scan_threads := (scan_threads t)[j := False]\<rparr>
      \<and> ConnectionStatus ''connected'' \<notin> set sigs"
    using run_scan_safe_frame by blast
  then show ?thesis using ScanRuns inv by (auto simp: quiet_defs filter_map comp_def)
next
  case ClickScan
  then show ?thesis using inv by (auto simp: quiet_defs main_thread_defs Let_def)
next
  case ClickConnect
  then show ?thesis using inv by (auto simp: quiet_defs main_thread_defs Let_def nth_append)
next
  case ClickDisconnect
  then show ?thesis using inv by (auto simp: quiet_defs main_thread_defs Let_def)
next
  case ClickAutoRetry
  then show ?thesis using inv by (auto simp: quiet_defs main_thread_defs Let_def)
next
  case (ClickSimulate k f)
  then show ?thesis using inv
    by (auto simp: quiet_defs main_thread_defs Let_def split: db_fault.splits)
next
  case (SliderMoved v)
  then show ?thesis using inv by (auto simp: quiet_defs main_thread_defs Let_def)
next
  case (DisconnectRuns r)
  then show ?thesis using inv
    by (auto simp: quiet_defs thread_defs log_message_def Let_def split: option.splits)
next
  case (ThreadStarts k r)
  then show ?thesis using inv
    by (auto simp: quiet_defs thread_defs Let_def nth_list_update split: option.splits)
next
  case (ConnectDone k r)
  then show ?thesis using inv
    by (auto simp: quiet_defs thread_defs Let_def nth_list_update split: awaited.splits)
next
  case (LoopTest k link)
  then show ?thesis using inv
    by (auto simp: quiet_defs thread_defs Let_def nth_list_update)
next
  case (ReadDone k r)
  then show ?thesis using inv
    by (auto simp: quiet_defs thread_defs Let_def nth_list_update split: awaited.splits)
next
  case (SleepDone k r)
  then show ?thesis using inv
    by (auto simp: quiet_defs thread_defs Let_def nth_list_update split: awaited.splits)
qed

lemma run_quiet: "quiet i t0 t \<Longrightarrow> quiet i t0 (run es t)"
  by (induction es arbitrary: t) (simp_all add: step_quiet)

lemma finished_thread_stays_quiet:
  assumes "at_pc i Finished t"
  shows "at_pc i Finished (run es t) \<and> reads_by i (run es t) = reads_by i t
         \<and> readings_by i (run es t) = readings_by i t"
proof -
  have "quiet i t t" using assms by (simp add: quiet_def)
  then have "quiet i t (run es t)" by (rule run_quiet)
  then show ?thesis by (simp add: quiet_def)
qed

lemma lowered_flag_ends_loop:
  assumes h: "halting i s t" and es: "list_all (\<lambda>e. \<not> establishes e) es"
  shows "reads_by i (run es t) = reads_by i s
       \<and> readings_by i (run es t) \<le> readings_by i s + 1
       \<and> sleeps_by i (run es t) \<le> sleeps_by i s + 1
       \<and> (\<forall>r w link es'.
             at_pc i Finished (run (es @ [ReadDone i r, SleepDone i w, LoopTest i link]) t)
           \<and> reads_by i (run es' (run (es @ [ReadDone i r, SleepDone i w, LoopTest i link]) t))
               = reads_by i s
           \<and> readings_by i (run es' (run (es @ [ReadDone i r, SleepDone i w, LoopTest i link]) t))
               = readings_by i (run (es @ [ReadDone i r, SleepDone i w, LoopTest i link]) t))"
proof -
  have h1: "halting i s (run es t)" using h es by (rule run_halting)
  have a: "reads_by i (run es t) = reads_by i s
       \<and> readings_by i (run es t) \<le> readings_by i s + 1
       \<and> sleeps_by i (run es t) \<le> sleeps_by i s + 1"
    using h1 by (auto simp: halting_def)
  have b: "at_pc i Finished (run (es @ [ReadDone i r, SleepDone i w, LoopTest i link]) t)
           \<and> reads_by i (run es' (run (es @ [ReadDone i r, SleepDone i w, LoopTest i link]) t))
               = reads_by i s
           \<and> readings_by i (run es' (run (es @ [ReadDone i r, SleepDone i w, LoopTest i link]) t))
               = readings_by i (run (es @ [ReadDone i r, SleepDone i w, LoopTest i link]) t)"
    for r w link es'
  proof -
    let ?u = "run (es @ [ReadDone i r, SleepDone i w, LoopTest i link]) t"
    have u: "?u = run [ReadDone i r, SleepDone i w, LoopTest i link] (run es t)"
      by (rule run_append)
    have fin: "at_pc i Finished ?u" unfolding u using h1 by (rule halting_leaves_loop)
    have "list_all (\<lambda>e. \<not> establishes e) (es @ [ReadDone i r, SleepDone i w, LoopTest i link])"
      using es by simp
    with h have "halting i s ?u" by (rule run_halting)
    then have r: "reads_by i ?u = reads_by i s" by (simp add: halting_def)
    show ?thesis using fin r finished_thread_stays_quiet [OF fin, of es'] by simp
  qed
  show ?thesis using a b by blast
qed

text \<open>
  C6, as stated, fails. The read loop of thread 0 is awaiting a read when
  \<open>safe_disconnect_device\<close> lowers the flags. A click on Connect then starts a second thread,
  it connects, and its \<open>connected\<close> status raises both flags again before thread 0 tests
  its loop condition; thread 0 finds the condition true, goes on, and issues a third transport
  read after the stop.
\<close>

theorem stop_then_restart_counterexample:
  "in_read_loop 0 (run to_reading initial)
   \<and> reads_by 0 (run to_reading initial) = 2
   \<and> \<not> is_connected (safe_disconnect_device (run to_reading initial))
   \<and> is_connected (run restarted (safe_disconnect_device (run to_reading initial)))
   \<and> at_pc 0 Reading (run restarted (safe_disconnect_device (run to_reading initial)))
   \<and> reads_by 0 (run restarted (safe_disconnect_device (run to_reading initial))) = 3
   \<and> readings_by 0 (run to_reading initial) = 1
   \<and> readings_by 0 (run restarted (safe_disconnect_device (run to_reading initial))) = 2"
  by code_simp

text \<open>
  C6, amended. The read loop of thread \<open>i\<close> is active when \<open>safe_disconnect_device\<close> is
  called, and in what follows no connection is reported as established. The call lowers both
  flags. From then on, whatever else happens, the thread issues no transport read; it emits
  at most one more reading (that of a read already in flight) and starts at most one more
  sleep. At its next test of the loop condition, after that read and that sleep are over, it
  returns, whatever the link reads; and once it has returned it reads and emits nothing more,
  whatever happens afterwards, a new connection included.
\<close>

theorem stop_halts_read_loop:
  assumes "in_read_loop i s" and "no_connection_established es s"
  shows "\<not> is_connected (safe_disconnect_device s) \<and> \<not> connection_active (safe_disconnect_device s)
       \<and> reads_by i (run es (safe_disconnect_device s)) = reads_by i s
       \<and> readings_by i (run es (safe_disconnect_device s)) \<le> readings_by i s + 1
       \<and> sleeps_by i (run es (safe_disconnect_device s)) \<le> sleeps_by i s + 1
       \<and> (\<forall>r w link es'.
             at_pc i Finished
               (run (es @ [ReadDone i r, SleepDone i w, LoopTest i link]) (safe_disconnect_device s))
           \<and> reads_by i
               (run es' (run (es @ [ReadDone i r, SleepDone i w, LoopTest i link]) (safe_disconnect_device s)))
               = reads_by i s
           \<and> readings_by i
               (run es' (run (es @ [ReadDone i r, SleepDone i w, LoopTest i link]) (safe_disconnect_device s)))
               = readings_by i
                   (run (es @ [ReadDone i r, SleepDone i w, LoopTest i link]) (safe_disconnect_device s)))"
proof -
  have "halting i s (safe_disconnect_device s)"
    using assms by (simp add: no_connection_established_def halting_after_disconnect)
  moreover have "list_all (\<lambda>e. \<not> establishes e) es"
    using assms by (simp add: no_connection_established_def)
  ultimately have "reads_by i (run es (safe_disconnect_device s)) = reads_by i s
       \<and> readings_by i (run es (safe_disconnect_device s)) \<le> readings_by i s + 1
       \<and> sleeps_by i (run es (safe_disconnect_device s)) \<le> sleeps_by i s + 1
       \<and> (\<forall>r w link es'.
             at_pc i Finished
               (run (es @ [ReadDone i r, SleepDone i w, LoopTest i link]) (safe_disconnect_device s))
           \<and> reads_by i
               (run es' (run (es @ [ReadDone i r, SleepDone i w, LoopTest i link]) (safe_disconnect_device s)))
               = reads_by i s
           \<and> readings_by i
               (run es' (run (es @ [ReadDone i r, SleepDone i w, LoopTest i link]) (safe_disconnect_device s)))
               = readings_by i
                   (run (es @ [ReadDone i r, SleepDone i w, LoopTest i link]) (safe_disconnect_device s)))"
    by (rule lowered_flag_ends_loop)
  moreover have "\<not> is_connected (safe_disconnect_device s) \<and> \<not> connection_active (safe_disconnect_device s)"
    by (simp add: main_thread_defs Let_def)
  ultimately show ?thesis by blast
qed

theorem stop_halts_read_loop_witness:
  "in_read_loop 0 (run to_reading initial)
   \<and> no_connection_established winding_down (run to_reading initial)
   \<and> reads_by 0 (run winding_down (safe_disconnect_device (run to_reading initial))) = 2
   \<and> readings_by 0 (run winding_down (safe_disconnect_device (run to_reading initial))) \<le> 2
   \<and> at_pc 0 Finished
       (run (winding_down @ [ReadDone 0 Cancelled, SleepDone 0 Cancelled, LoopTest 0 True])
          (safe_disconnect_device (run to_reading initial)))"
proof -
  have a: "in_read_loop 0 (run to_reading initial)" by code_simp
  have b: "no_connection_established winding_down (run to_reading initial)" by code_simp
  have c: "reads_by 0 (run to_reading initial) = 2" by code_simp
  have d: "readings_by 0 (run to_reading initial) = 1" by code_simp
  show ?thesis using a b c d stop_halts_read_loop [OF a b] by simp
qed

text \<open>
  C8, as stated, fails. An \<open>error_occurred\<close> signal from a scan is delivered while thread 0
  awaits a read; both flags go down and the Connect button is enabled. A click on it starts a
  second thread, whose \<open>connected\<close> status raises the flags again before thread 0 tests its
  loop condition: the loop does not end, and thread 0 issues a third transport read.
\<close>

theorem error_then_restart_counterexample:
  "in_read_loop 0 (run to_reading initial)
   \<and> reads_by 0 (run to_reading initial) = 2
   \<and> \<not> is_connected (slot NoFault (ErrorOccurred ''BLE scan failed: adapter off'') (run to_reading initial))
   \<and> \<not> connection_active (slot NoFault (ErrorOccurred ''BLE scan failed: adapter off'') (run to_reading initial))
   \<and> at_pc 0 Reading
        (run restarted (slot NoFault (ErrorOccurred ''BLE scan failed: adapter off'') (run to_reading initial)))
   \<and> reads_by 0
        (run restarted (slot NoFault (ErrorOccurred ''BLE scan failed: adapter off'') (run to_reading initial))) = 3"
  by code_simp

text \<open>
  C8, amended. Delivering an \<open>error_occurred\<close> signal, whatever its text and origin, lowers
  \<open>is_connected\<close> and \<open>connection_active\<close>, so that a test of the loop condition made
  then fails whatever the link reads. If the read loop of thread \<open>i\<close> is active at that
  moment, and no connection is reported as established afterwards, the thread issues no further
  transport read and returns at its next test of the loop condition.
\<close>

theorem error_ends_read_loop:
  "\<not> is_connected (slot f (ErrorOccurred m) s) \<and> \<not> connection_active (slot f (ErrorOccurred m) s)
   \<and> (\<forall>link. loop_test i link (slot f (ErrorOccurred m) s) = set_pc i Finished (slot f (ErrorOccurred m) s))
   \<and> (in_read_loop i s \<and> no_connection_established es s \<longrightarrow>
        reads_by i (run es (slot f (ErrorOccurred m) s)) = reads_by i s
      \<and> (\<forall>r w link.
            at_pc i Finished
              (run (es @ [ReadDone i r, SleepDone i w, LoopTest i link]) (slot f (ErrorOccurred m) s))))"
proof -
  have flags: "\<not> is_connected (on_error_occurred m s) \<and> \<not> connection_active (on_error_occurred m s)"
    by (simp add: on_error_occurred_def log_message_def)
  then have test: "loop_test i link (on_error_occurred m s) = set_pc i Finished (on_error_occurred m s)"
    for link by (simp add: loop_test_def)
  have loop: "reads_by i (run es (on_error_occurred m s)) = reads_by i s
      \<and> (\<forall>r w link.
            at_pc i Finished
              (run (es @ [ReadDone i r, SleepDone i w, LoopTest i link]) (on_error_occurred m s)))"
    if "in_read_loop i s" and "no_connection_established es s"
  proof -
    have "halting i s (on_error_occurred m s)"
      using that by (simp add: no_connection_established_def halting_after_error)
    moreover have "list_all (\<lambda>e. \<not> establishes e) es"
      using that by (simp add: no_connection_established_def)
    ultimately show ?thesis using lowered_flag_ends_loop [of i s "on_error_occurred m s" es] by blast
  qed
  show ?thesis using flags test loop by simp
qed

theorem error_ends_read_loop_witness:
  "in_read_loop 0 (run to_reading initial)
   \<and> no_connection_established winding_down (run to_reading initial)
   \<and> \<not> is_connected (slot NoFault (ErrorOccurred ''BLE scan failed: adapter off'') (run to_reading initial))
   \<and> reads_by 0 (run winding_down (slot NoFault (ErrorOccurred ''BLE scan failed: adapter off'') (run to_reading initial))) = 2
   \<and> at_pc 0 Finished
       (run (winding_down @ [ReadDone 0 Cancelled, SleepDone 0 Cancelled, LoopTest 0 True])
          (slot NoFault (ErrorOccurred ''BLE scan failed: adapter off'') (run to_reading initial)))"
proof -
  have a: "in_read_loop 0 (run to_reading initial)" by code_simp
  have b: "no_connection_established winding_down (run to_reading initial)" by code_simp
  have c: "reads_by 0 (run to_reading initial) = 2" by code_simp
  show ?thesis
    using a b c error_ends_read_loop [of NoFault "''BLE scan failed: adapter off''" "run to_reading initial" 0 winding_down]
    by simp
qed

end
